theory Spec2Isabelle
  imports Main "HOL-Library.Word"
begin

unbundle bit_operations_syntax

section \<open>JavaScript values of the crypto module\<close>

text \<open>
  The crypto module (\<open>LibCrypto\<close>) passes around two kinds of values: strings and
  \<open>Buffer\<close>s. \<open>isString\<close> tells them apart by their constructor. A string is a list
  of 8-bit characters here, so code points above 255 are outside the model.
\<close>

type_synonym byte = "8 word"
type_synonym bytes = "byte list"

datatype jsval = JStr string | JBuf bytes

datatype error =
    ReferenceError string
  | TypeError
  | UnknownCipher
  | InvalidKeyLength
  | InvalidIVLength
  | CipherFailure
  | UnknownHash
  | InvalidPoint
  | AssertionError
  | NoSecondKey

fun isString :: "jsval \<Rightarrow> bool" where
  "isString (JStr s) = True"
| "isString (JBuf b) = False"

text \<open>
  JavaScript truthiness, as \<open>x || d\<close> reads it: an absent property (\<open>None\<close>) and the empty
  string are falsy, every \<open>Buffer\<close> is truthy.
\<close>

fun truthy :: "jsval option \<Rightarrow> bool" where
  "truthy None = False"
| "truthy (Some (JStr s)) = (s \<noteq> [])"
| "truthy (Some (JBuf b)) = True"

definition str_or :: "string option \<Rightarrow> string \<Rightarrow> string" where
  "str_or x d = (case x of None \<Rightarrow> d | Some s \<Rightarrow> if s = [] then d else s)"

subsection \<open>Encodings of a Buffer\<close>

text \<open>
  \<open>new Buffer(str, 'hex')\<close> decodes pairs of hexadecimal digits of either case and stops
  at the first pair that is not one; \<open>buf.toString('hex')\<close> writes lower-case digits.
\<close>

definition hexval :: "char \<Rightarrow> nat option" where
  "hexval c =
     (let n = (of_char c :: nat) in
      if 48 \<le> n \<and> n \<le> 57 then Some (n - 48)
      else if 97 \<le> n \<and> n \<le> 102 then Some (n - 87)
      else if 65 \<le> n \<and> n \<le> 70 then Some (n - 55)
      else None)"

fun hex_decode :: "string \<Rightarrow> bytes" where
  "hex_decode (a # b # cs) =
     (case hexval a of
        None \<Rightarrow> []
      | Some h \<Rightarrow>
          (case hexval b of
             None \<Rightarrow> []
           | Some l \<Rightarrow> of_nat (16 * h + l) # hex_decode cs))"
| "hex_decode cs = []"

definition hexdigit :: "nat \<Rightarrow> char" where
  "hexdigit n = char_of (if n < 10 then 48 + n else 87 + n)"

definition hex_encode :: "bytes \<Rightarrow> string" where
  "hex_encode bs = concat (map (\<lambda>b. [hexdigit (unat b div 16), hexdigit (unat b mod 16)]) bs)"

text \<open>
  \<open>new Buffer(str)\<close> encodes the string as UTF-8: one byte below 128, two bytes for the
  code points 128 to 255.
\<close>

definition utf8_char :: "char \<Rightarrow> bytes" where
  "utf8_char c =
     (let n = (of_char c :: nat) in
      if n < 128 then [of_nat n] else [of_nat (192 + n div 64), of_nat (128 + n mod 64)])"

definition utf8 :: "string \<Rightarrow> bytes" where
  "utf8 s = concat (map utf8_char s)"

text \<open>
  \<open>new Buffer(str, 'base64')\<close>: the decoder reads up to the first \<open>=\<close>, skips every
  character outside the alphabet (it accepts the URL-safe \<open>-\<close> and \<open>_\<close> as well), and
  turns each group of four sextets into three bytes; two or three sextets left over give
  one or two bytes.
\<close>

definition b64val :: "char \<Rightarrow> nat option" where
  "b64val c =
     (let n = (of_char c :: nat) in
      if 65 \<le> n \<and> n \<le> 90 then Some (n - 65)
      else if 97 \<le> n \<and> n \<le> 122 then Some (n - 71)
      else if 48 \<le> n \<and> n \<le> 57 then Some (n + 4)
      else if n = 43 \<or> n = 45 then Some 62
      else if n = 47 \<or> n = 95 then Some 63
      else None)"

fun sextets :: "string \<Rightarrow> nat list" where
  "sextets [] = []"
| "sextets (c # cs) =
     (if c = CHR ''='' then []
      else (case b64val c of None \<Rightarrow> sextets cs | Some v \<Rightarrow> v # sextets cs))"

fun b64_groups :: "nat list \<Rightarrow> bytes" where
  "b64_groups (a # b # c # d # vs) =
     of_nat (4 * a + b div 16) # of_nat (16 * (b mod 16) + c div 4) # of_nat (64 * (c mod 4) + d)
       # b64_groups vs"
| "b64_groups [a, b, c] = [of_nat (4 * a + b div 16), of_nat (16 * (b mod 16) + c div 4)]"
| "b64_groups [a, b] = [of_nat (4 * a + b div 16)]"
| "b64_groups vs = []"

definition base64_decode :: "string \<Rightarrow> bytes" where
  "base64_decode s = b64_groups (sextets s)"

datatype encoding = Hex | Base64 | Utf8

fun buffer_from :: "string \<Rightarrow> encoding \<Rightarrow> bytes" where
  "buffer_from s Hex = hex_decode s"
| "buffer_from s Base64 = base64_decode s"
| "buffer_from s Utf8 = utf8 s"

subsection \<open>The validator package\<close>

text \<open>
  \<open>validator.isHexadecimal\<close> matches \<open>/^[0-9A-F]+$/i\<close>. \<open>validator.isBase64\<close> asks for a
  non-empty string of a length divisible by four, made of the characters
  \<open>A-Z a-z 0-9 + / =\<close>, whose first \<open>=\<close>, if any, is the last character or the one before
  it followed by \<open>=\<close>.
\<close>

definition isHexadecimal :: "string \<Rightarrow> bool" where
  "isHexadecimal s = (s \<noteq> [] \<and> list_all (\<lambda>c. hexval c \<noteq> None) s)"

definition base64_char :: "char \<Rightarrow> bool" where
  "base64_char c =
     (let n = (of_char c :: nat) in
      (65 \<le> n \<and> n \<le> 90) \<or> (97 \<le> n \<and> n \<le> 122) \<or> (48 \<le> n \<and> n \<le> 57)
      \<or> n = 43 \<or> n = 47 \<or> n = 61)"

definition isBase64 :: "string \<Rightarrow> bool" where
  "isBase64 s =
     (let len = length s; pad = length (takeWhile (\<lambda>c. c \<noteq> CHR ''='') s) in
      if len = 0 \<or> len mod 4 \<noteq> 0 \<or> \<not> list_all base64_char s then False
      else pad = len \<or> pad = len - 1 \<or> (pad = len - 2 \<and> s ! (len - 1) = CHR ''=''))"

subsection \<open>\<open>str2buf\<close>\<close>

text \<open>
  \<open>str2buf(str, enc)\<close> leaves a \<open>Buffer\<close> as it is. A string is decoded with \<open>enc\<close> when
  one is given; without one it is taken for hexadecimal if it looks so, else for base64
  if it looks so, else encoded as UTF-8.
\<close>

fun str2buf :: "jsval \<Rightarrow> encoding option \<Rightarrow> bytes" where
  "str2buf (JBuf b) enc = b"
| "str2buf (JStr s) (Some enc) = buffer_from s enc"
| "str2buf (JStr s) None =
     (if isHexadecimal s then buffer_from s Hex
      else if isBase64 s then buffer_from s Base64
      else utf8 s)"

fun toString_hex :: "jsval \<Rightarrow> string" where
  "toString_hex (JBuf b) = hex_encode b"
| "toString_hex (JStr s) = s"

section \<open>The cipher library\<close>

text \<open>
  \<open>crypto.createCipheriv\<close> and \<open>crypto.createDecipheriv\<close> belong to the platform. The
  default algorithm \<open>aes-256-ctr\<close> is modelled as counter mode over the AES-256 block
  function, which is a parameter: block \<open>i\<close> of the key stream is the encryption of
  \<open>iv + i\<close> (a 128-bit big-endian counter), and both directions XOR the data with the
  key stream. Every other algorithm name is looked up in a second parameter. A cipher
  maps the whole input to the concatenation of \<open>update\<close> and \<open>final\<close>.
\<close>

type_synonym block_cipher = "bytes \<Rightarrow> 128 word \<Rightarrow> 128 word"

record cipher_impl =
  keyLength :: nat
  ivLength :: nat
  cipher_run :: "bytes \<Rightarrow> bytes \<Rightarrow> bytes \<Rightarrow> error + bytes"
  decipher_run :: "bytes \<Rightarrow> bytes \<Rightarrow> bytes \<Rightarrow> error + bytes"

record crypto_lib =
  aes256 :: block_cipher
  other_ciphers :: "string \<Rightarrow> cipher_impl option"
  hkdf_derive :: "string \<Rightarrow> bytes \<Rightarrow> bytes \<Rightarrow> string \<Rightarrow> nat \<Rightarrow> error + bytes"

definition be128 :: "bytes \<Rightarrow> 128 word" where
  "be128 bs = foldl (\<lambda>w b. push_bit 8 w OR ucast b) 0 bs"

definition ctr_byte :: "block_cipher \<Rightarrow> bytes \<Rightarrow> bytes \<Rightarrow> nat \<Rightarrow> byte" where
  "ctr_byte E key iv j =
     ucast (drop_bit (8 * (15 - j mod 16)) (E key (be128 iv + of_nat (j div 16))))"

definition ctr_crypt :: "block_cipher \<Rightarrow> bytes \<Rightarrow> bytes \<Rightarrow> bytes \<Rightarrow> bytes" where
  "ctr_crypt E key iv data =
     map2 (XOR) data (map (ctr_byte E key iv) [0..<length data])"

definition aes_256_ctr :: "block_cipher \<Rightarrow> cipher_impl" where
  "aes_256_ctr E =
     \<lparr>keyLength = 32, ivLength = 16,
      cipher_run = (\<lambda>key iv data. Inr (ctr_crypt E key iv data)),
      decipher_run = (\<lambda>key iv data. Inr (ctr_crypt E key iv data))\<rparr>"

definition getCipher :: "crypto_lib \<Rightarrow> string \<Rightarrow> cipher_impl option" where
  "getCipher lib alg =
     (if alg = ''aes-256-ctr'' then Some (aes_256_ctr (aes256 lib)) else other_ciphers lib alg)"

definition createCipheriv ::
  "crypto_lib \<Rightarrow> string \<Rightarrow> bytes \<Rightarrow> bytes \<Rightarrow> error + (bytes \<Rightarrow> error + bytes)" where
  "createCipheriv lib alg key iv =
     (case getCipher lib alg of
        None \<Rightarrow> Inl UnknownCipher
      | Some c \<Rightarrow>
          if length key \<noteq> keyLength c then Inl InvalidKeyLength
          else if length iv \<noteq> ivLength c then Inl InvalidIVLength
          else Inr (cipher_run c key iv))"

definition createDecipheriv ::
  "crypto_lib \<Rightarrow> string \<Rightarrow> bytes \<Rightarrow> bytes \<Rightarrow> error + (bytes \<Rightarrow> error + bytes)" where
  "createDecipheriv lib alg key iv =
     (case getCipher lib alg of
        None \<Rightarrow> Inl UnknownCipher
      | Some c \<Rightarrow>
          if length key \<noteq> keyLength c then Inl InvalidKeyLength
          else if length iv \<noteq> ivLength c then Inl InvalidIVLength
          else Inr (decipher_run c key iv))"

text \<open>
  \<open>crypto.randomBytes(n)\<close> reads \<open>n\<close> bytes of an entropy source, which each call
  receives as an argument.
\<close>

definition randomBytes :: "nat \<Rightarrow> (nat \<Rightarrow> byte) \<Rightarrow> bytes" where
  "randomBytes n rnd = map rnd [0..<n]"

text \<open>A string handed to the platform as an iv is read as UTF-8.\<close>

fun raw_bytes :: "jsval \<Rightarrow> bytes" where
  "raw_bytes (JBuf b) = b"
| "raw_bytes (JStr s) = utf8 s"

section \<open>\<open>LibCrypto\<close>: ciphers\<close>

record options =
  algorithm :: "string option"
  iv :: "jsval option"
  cipherEncoding :: "encoding option"

record cipher_param =
  cp_cipher :: "bytes \<Rightarrow> error + bytes"
  cp_iv :: jsval
  cp_algorithm :: string

record envelope =
  env_algorithm :: string
  env_iv :: string
  cipherText :: bytes

definition createCipher ::
  "crypto_lib \<Rightarrow> bytes \<Rightarrow> options \<Rightarrow> (nat \<Rightarrow> byte) \<Rightarrow> error + cipher_param" where
  "createCipher lib secretKey opts rnd =
     (let alg = str_or (algorithm opts) ''aes-256-ctr'';
          v = (if truthy (iv opts) then the (iv opts) else JBuf (randomBytes 16 rnd))
      in case createCipheriv lib alg secretKey (raw_bytes v) of
           Inl e \<Rightarrow> Inl e
         | Inr c \<Rightarrow> Inr \<lparr>cp_cipher = c, cp_iv = v, cp_algorithm = alg\<rparr>)"

text \<open>
  \<open>createDecipher\<close> and \<open>decrypt\<close> fall back on \<open>zeros(16)\<close> for a missing iv. The
  module neither defines nor imports \<open>zeros\<close>, so evaluating the call raises a
  \<open>ReferenceError\<close>.
\<close>

definition zeros :: "nat \<Rightarrow> error + jsval" where
  "zeros n = Inl (ReferenceError ''zeros'')"

definition createDecipher :: "crypto_lib \<Rightarrow> bytes \<Rightarrow> options \<Rightarrow> error + cipher_param" where
  "createDecipher lib secretKey opts =
     (let alg = str_or (algorithm opts) ''aes-256-ctr'' in
      case (if truthy (iv opts) then Inr (the (iv opts)) else zeros 16) of
        Inl e \<Rightarrow> Inl e
      | Inr v \<Rightarrow>
          (case createDecipheriv lib alg secretKey (raw_bytes v) of
             Inl e \<Rightarrow> Inl e
           | Inr d \<Rightarrow> Inr \<lparr>cp_cipher = d, cp_iv = v, cp_algorithm = alg\<rparr>))"

text \<open>
  \<open>encrypt\<close> and \<open>decrypt\<close> run inside \<open>try\<close>; the \<open>catch\<close> logs the exception and
  returns \<open>null\<close>. The body is a function of its own, and the wrapper turns every
  exception into the result \<open>None\<close>. A result \<open>Inl e\<close> would be an exception that
  reaches the caller.
\<close>

definition encrypt_body ::
  "crypto_lib \<Rightarrow> jsval \<Rightarrow> bytes \<Rightarrow> options \<Rightarrow> (nat \<Rightarrow> byte) \<Rightarrow> error + envelope" where
  "encrypt_body lib data secretKey opts rnd =
     (let bufferData = str2buf data None in
      case createCipher lib secretKey opts rnd of
        Inl e \<Rightarrow> Inl e
      | Inr cipherParam \<Rightarrow>
          (case cp_cipher cipherParam bufferData of
             Inl e \<Rightarrow> Inl e
           | Inr encrypted \<Rightarrow>
               Inr \<lparr>env_algorithm = cp_algorithm cipherParam,
                    env_iv = toString_hex (cp_iv cipherParam),
                    cipherText = encrypted\<rparr>))"

definition encrypt ::
  "crypto_lib \<Rightarrow> jsval \<Rightarrow> bytes \<Rightarrow> options \<Rightarrow> (nat \<Rightarrow> byte) \<Rightarrow> error + envelope option" where
  "encrypt lib data secretKey opts rnd =
     (case encrypt_body lib data secretKey opts rnd of
        Inl e \<Rightarrow> Inr None
      | Inr env \<Rightarrow> Inr (Some env))"

definition decrypt_body :: "crypto_lib \<Rightarrow> jsval \<Rightarrow> bytes \<Rightarrow> options \<Rightarrow> error + bytes" where
  "decrypt_body lib data secretKey opts =
     (let alg = str_or (algorithm opts) ''aes-256-ctr'';
          enc = (case cipherEncoding opts of None \<Rightarrow> Base64 | Some e \<Rightarrow> e)
      in case (if truthy (iv opts) then Inr (the (iv opts)) else zeros 16) of
           Inl e \<Rightarrow> Inl e
         | Inr v \<Rightarrow>
             (let binData = str2buf data (Some enc);
                  binIV = str2buf v (Some Hex)
              in case createDecipheriv lib alg secretKey binIV of
                   Inl e \<Rightarrow> Inl e
                 | Inr decipher \<Rightarrow> decipher binData))"

definition decrypt :: "crypto_lib \<Rightarrow> jsval \<Rightarrow> bytes \<Rightarrow> options \<Rightarrow> error + bytes option" where
  "decrypt lib data secretKey opts =
     (case decrypt_body lib data secretKey opts of
        Inl e \<Rightarrow> Inr None
      | Inr plain \<Rightarrow> Inr (Some plain))"

text \<open>The options an envelope gives to \<open>decrypt\<close>: its own algorithm and iv.\<close>

definition envelope_options :: "envelope \<Rightarrow> options" where
  "envelope_options env =
     \<lparr>algorithm = Some (env_algorithm env), iv = Some (JStr (env_iv env)), cipherEncoding = None\<rparr>"

definition no_options :: options where
  "no_options = \<lparr>algorithm = None, iv = None, cipherEncoding = None\<rparr>"

text \<open>
  Encrypting with the default options and decrypting what came out: the cipher text is
  handed to \<open>decrypt\<close> as the \<open>Buffer\<close> it is, with the options of the envelope.
\<close>

definition roundtrip ::
  "crypto_lib \<Rightarrow> jsval \<Rightarrow> bytes \<Rightarrow> (nat \<Rightarrow> byte) \<Rightarrow> error + bytes option" where
  "roundtrip lib data secretKey rnd =
     (case encrypt lib data secretKey no_options rnd of
        Inl e \<Rightarrow> Inl e
      | Inr None \<Rightarrow> Inr None
      | Inr (Some env) \<Rightarrow> decrypt lib (JBuf (cipherText env)) secretKey (envelope_options env))"

section \<open>\<open>LibCrypto\<close>: key derivation\<close>

text \<open>
  \<open>deriveSecretKey\<close> reads its options with defaults, decodes the salt (32 fresh random
  bytes when none is given) and runs the HKDF of the \<open>node-hkdf-sync\<close> package, which
  is the parameter \<open>hkdf_derive\<close>. The call is not inside a \<open>try\<close>.
\<close>

record kdf_options =
  opt_hashAlg :: "string option"
  opt_info :: "string option"
  opt_size :: "nat option"
  opt_salt :: "jsval option"

record hkdf_params =
  hashAgl :: string
  salt :: string
  info :: string
  size_bytes :: nat

record key_material =
  key :: bytes
  hkdf :: hkdf_params

definition deriveSecretKey ::
  "crypto_lib \<Rightarrow> bytes \<Rightarrow> kdf_options \<Rightarrow> (nat \<Rightarrow> byte) \<Rightarrow> error + key_material" where
  "deriveSecretKey lib derivedSharedKey opts rnd =
     (let hashAgl' = str_or (opt_hashAlg opts) ''sha256'';
          info' = str_or (opt_info opts) ''file-force'';
          size' = (case opt_size opts of None \<Rightarrow> 32 | Some n \<Rightarrow> if n = 0 then 32 else n);
          salt' = str2buf (if truthy (opt_salt opts) then the (opt_salt opts)
                           else JBuf (randomBytes 32 rnd)) (Some Hex)
      in case hkdf_derive lib hashAgl' salt' derivedSharedKey info' size' of
           Inl e \<Rightarrow> Inl e
         | Inr hKey \<Rightarrow>
             Inr \<lparr>key = hKey,
                  hkdf = \<lparr>hashAgl = hashAgl', salt = hex_encode salt', info = info',
                          size_bytes = size'\<rparr>\<rparr>)"

section \<open>\<open>LibCrypto\<close>: elliptic-curve keys\<close>

text \<open>
  The curve arithmetic is the \<open>elliptic\<close> package's. Its points, their addition, the
  point at infinity, the base point \<open>g\<close>, the group order \<open>n\<close>, the \<open>x\<close> coordinate and
  the encoding of a point as bytes (\<open>getPublic('arr')\<close>, read back by \<open>keyFromPublic\<close>)
  are parameters, collected in a record. Multiplying a point by a scalar adds the point
  that many times. \<open>keyFromPrivate\<close> reads the key as a big-endian number and reduces
  it modulo \<open>n\<close>.
\<close>

record 'p curve =
  curve_add :: "'p \<Rightarrow> 'p \<Rightarrow> 'p"
  curve_inf :: 'p
  curve_g :: 'p
  curve_n :: nat
  curve_getX :: "'p \<Rightarrow> nat"
  curve_encode :: "'p \<Rightarrow> bytes"
  curve_decode :: "bytes \<Rightarrow> 'p option"

definition be_nat :: "bytes \<Rightarrow> nat" where
  "be_nat bs = foldl (\<lambda>a b. 256 * a + unat b) 0 bs"

fun be_digits :: "nat \<Rightarrow> bytes" where
  "be_digits k = (if k = 0 then [] else be_digits (k div 256) @ [of_nat (k mod 256)])"

declare be_digits.simps [simp del]

text \<open>\<open>BN.toBuffer()\<close>: the big-endian bytes without leading zeros, one zero byte for 0.\<close>

definition toBuffer :: "nat \<Rightarrow> bytes" where
  "toBuffer k = (if k = 0 then [0] else be_digits k)"

definition mul :: "('p, 'm) curve_scheme \<Rightarrow> nat \<Rightarrow> 'p \<Rightarrow> 'p" where
  "mul C k P = ((curve_add C P) ^^ k) (curve_inf C)"

definition keyFromPrivate :: "('p, 'm) curve_scheme \<Rightarrow> bytes \<Rightarrow> nat" where
  "keyFromPrivate C privateKey = be_nat privateKey mod curve_n C"

definition getPublic :: "('p, 'm) curve_scheme \<Rightarrow> nat \<Rightarrow> 'p" where
  "getPublic C priv = mul C priv (curve_g C)"

definition private2public :: "('p, 'm) curve_scheme \<Rightarrow> bytes \<Rightarrow> bytes" where
  "private2public C privateKey = curve_encode C (getPublic C (keyFromPrivate C privateKey))"

definition keyFromPublic :: "('p, 'm) curve_scheme \<Rightarrow> bytes \<Rightarrow> error + 'p" where
  "keyFromPublic C pub = (case curve_decode C pub of None \<Rightarrow> Inl InvalidPoint | Some P \<Rightarrow> Inr P)"

text \<open>\<open>keyPair1.derive(pub)\<close> is the \<open>x\<close> coordinate of \<open>pub\<close> multiplied by the private key.\<close>

definition deriveSharedKey :: "('p, 'm) curve_scheme \<Rightarrow> bytes \<Rightarrow> bytes \<Rightarrow> error + bytes" where
  "deriveSharedKey C privateKey1 publicKey2 =
     (let keyPair1 = keyFromPrivate C privateKey1 in
      case keyFromPublic C publicKey2 of
        Inl e \<Rightarrow> Inl e
      | Inr keyPair2 \<Rightarrow> Inr (toBuffer (curve_getX C (mul C keyPair1 keyPair2))))"

section \<open>\<open>LibCrypto\<close>: signatures\<close>

text \<open>
  \<open>sign\<close> and \<open>recovery\<close> call the ECDSA of the \<open>elliptic\<close> package. What the package
  needs of the curve beyond the group is a parameter too: the field size \<open>p\<close>, the \<open>y\<close>
  coordinate, \<open>pointFromX\<close>, which finds the point with a given \<open>x\<close> coordinate and a
  given parity of \<open>y\<close>, and the generator of nonces (an HMAC-DRBG seeded with the key and
  the digest). A digest is read as a big-endian number.
\<close>

record 'p ecdsa_curve = "'p curve" +
  curve_p :: nat
  curve_getY :: "'p \<Rightarrow> nat"
  curve_pointFromX :: "nat \<Rightarrow> bool \<Rightarrow> 'p option"
  drbg_generate :: "nat \<Rightarrow> nat \<Rightarrow> nat \<Rightarrow> nat"

record signature =
  sig_r :: nat
  sig_s :: nat
  recoveryParam :: nat

fun bitLength :: "nat \<Rightarrow> nat" where
  "bitLength k = (if k = 0 then 0 else Suc (bitLength (k div 2)))"

declare bitLength.simps [simp del]

definition byteLength :: "nat \<Rightarrow> nat" where
  "byteLength k = (bitLength k + 7) div 8"

text \<open>
  \<open>_truncateToN(msg, truncOnly)\<close> drops the low bits of a number that has more bytes than
  \<open>n\<close> has bits, and then, unless \<open>truncOnly\<close>, subtracts \<open>n\<close> once from a number that is
  not below it.
\<close>

definition truncateToN :: "('p, 'm) curve_scheme \<Rightarrow> nat \<Rightarrow> bool \<Rightarrow> nat" where
  "truncateToN C msg truncOnly =
     (let delta = byteLength msg * 8 - bitLength (curve_n C);
          msg' = (if delta > 0 then msg div 2 ^ delta else msg)
      in if \<not> truncOnly \<and> msg' \<ge> curve_n C then msg' - curve_n C else msg')"

text \<open>\<open>x.invm(m)\<close>: the inverse of \<open>x\<close> modulo \<open>m\<close> among the numbers below \<open>m\<close>.\<close>

definition invm :: "nat \<Rightarrow> nat \<Rightarrow> nat" where
  "invm x m = (case find (\<lambda>y. x * y mod m = 1) [0..<m] of None \<Rightarrow> 0 | Some y \<Rightarrow> y)"

text \<open>
  The loop of \<open>ec.sign\<close>: it draws nonces until one is accepted, so it need not return;
  \<open>None\<close> is the loop that goes on for ever.
\<close>

partial_function (option) sign_loop ::
  "'p ecdsa_curve \<Rightarrow> nat \<Rightarrow> nat \<Rightarrow> nat \<Rightarrow> signature option" where
  "sign_loop C d e iter =
     (let k = truncateToN C (drbg_generate C d e iter) True in
      if k \<le> 1 \<or> k \<ge> curve_n C - 1 then sign_loop C d e (Suc iter)
      else
        (let kp = mul C k (curve_g C) in
         if kp = curve_inf C then sign_loop C d e (Suc iter)
         else
           (let kpX = curve_getX C kp;
                r = kpX mod curve_n C
            in if r = 0 then sign_loop C d e (Suc iter)
               else
                 (let s = (invm k (curve_n C) * (r * d + e)) mod curve_n C in
                  if s = 0 then sign_loop C d e (Suc iter)
                  else Some \<lparr>sig_r = r, sig_s = s,
                             recoveryParam = (if odd (curve_getY C kp) then 1 else 0)
                                           + (if kpX \<noteq> r then 2 else 0)\<rparr>))))"

definition sign :: "'p ecdsa_curve \<Rightarrow> bytes \<Rightarrow> bytes \<Rightarrow> signature option" where
  "sign C message privateKey =
     sign_loop C (keyFromPrivate C privateKey) (truncateToN C (be_nat message) False) 0"

definition recoverPubKey :: "'p ecdsa_curve \<Rightarrow> nat \<Rightarrow> signature \<Rightarrow> nat \<Rightarrow> error + 'p" where
  "recoverPubKey C e sg j =
     (if j \<ge> 4 then Inl AssertionError
      else
        (let r = sig_r sg; s = sig_s sg;
             isYOdd = odd j;
             isSecondKey = (j div 2 \<noteq> 0)
         in if r \<ge> curve_p C mod curve_n C \<and> isSecondKey then Inl NoSecondKey
            else
              (case curve_pointFromX C (if isSecondKey then r + curve_n C else r) isYOdd of
                 None \<Rightarrow> Inl InvalidPoint
               | Some R \<Rightarrow>
                   (let rInv = invm r (curve_n C);
                        s1 = nat (((int (curve_n C) - int e) * int rInv) mod int (curve_n C));
                        s2 = (s * rInv) mod curve_n C
                    in Inr (curve_add C (mul C s1 (curve_g C)) (mul C s2 R))))))"

text \<open>
  \<open>recovery\<close> truncates the digest as \<open>sign\<close> does, recovers the point and returns its
  encoding (\<open>getPublic('arr')\<close>), the bytes that \<open>private2public\<close> returns.
\<close>

definition recovery :: "'p ecdsa_curve \<Rightarrow> signature \<Rightarrow> bytes \<Rightarrow> error + bytes" where
  "recovery C sg message =
     (let truncatedMsg = truncateToN C (be_nat message) False in
      case recoverPubKey C truncatedMsg sg (recoveryParam sg) of
        Inl err \<Rightarrow> Inl err
      | Inr r \<Rightarrow> Inr (curve_encode C r))"

text \<open>
  The number that iteration \<open>i\<close> of the loop tries as a nonce, the nonces that the loop
  accepts, and the signature it returns for an accepted nonce.
\<close>

definition candidate :: "'p ecdsa_curve \<Rightarrow> bytes \<Rightarrow> bytes \<Rightarrow> nat \<Rightarrow> nat" where
  "candidate C message privateKey i =
     truncateToN C
       (drbg_generate C (keyFromPrivate C privateKey) (truncateToN C (be_nat message) False) i) True"

definition nonce_accepted :: "'p ecdsa_curve \<Rightarrow> nat \<Rightarrow> nat \<Rightarrow> nat \<Rightarrow> bool" where
  "nonce_accepted C d e k =
     (let kp = mul C k (curve_g C); r = curve_getX C kp mod curve_n C in
      1 < k \<and> k < curve_n C - 1 \<and> kp \<noteq> curve_inf C \<and> r \<noteq> 0 \<and>
      (invm k (curve_n C) * (r * d + e)) mod curve_n C \<noteq> 0)"

definition signature_with :: "'p ecdsa_curve \<Rightarrow> nat \<Rightarrow> nat \<Rightarrow> nat \<Rightarrow> signature" where
  "signature_with C d e k =
     (let kp = mul C k (curve_g C); kpX = curve_getX C kp; r = kpX mod curve_n C in
      \<lparr>sig_r = r,
       sig_s = (invm k (curve_n C) * (r * d + e)) mod curve_n C,
       recoveryParam = (if odd (curve_getY C kp) then 1 else 0) + (if kpX \<noteq> r then 2 else 0)\<rparr>)"

section \<open>The harvester\<close>

text \<open>
  The harvester subscribes to one kind of ledger event (\<open>fileForce.watchEvents\<close>) and
  hands the content identifiers of each event to \<open>redundant.pull\<close>, with a callback.
  Both libraries call back asynchronously, so the process is modelled by what it does on
  each call: \<open>Delivery\<close> is the ledger calling the subscription callback with
  \<open>(error, event)\<close>, and \<open>PullDone k\<close> is the retrieval library calling the \<open>k\<close>-th
  callback registered with it, with \<open>(error, done)\<close>. An error or a result is a string,
  absent when \<open>None\<close>; \<open>bnToMultihash58\<close> is a parameter.
\<close>

type_synonym bn = nat

record event_args =
  ipfs :: "bn option"
  ipfsOrigin :: "bn option"
  ipfsNew :: "bn option"

record event =
  blockNumber :: nat
  args :: event_args

datatype mode = File_mode | Ectag_mode | Ecdtag_mode

record harvester_options =
  mode_opt :: mode
  fail_fast :: bool
  bnToMultihash58 :: "bn option \<Rightarrow> string"

record log_line =
  line_hash :: string
  line_block :: nat
  line_outcome :: "string option"

record harvester =
  requested :: "(string \<times> nat) list"
  console :: "log_line list"
  thrown :: "string option"

datatype input = Delivery "string option" event | PullDone nat "string option" "string option"

definition err_truthy :: "string option \<Rightarrow> bool" where
  "err_truthy e = (case e of None \<Rightarrow> False | Some s \<Rightarrow> s \<noteq> [])"

text \<open>
  \<open>pull(hashBn, event)\<close> converts the identifier and registers its callback with
  \<open>redundant.pull\<close>; the callback keeps the identifier and the block number.
\<close>

definition pull :: "harvester_options \<Rightarrow> bn option \<Rightarrow> event \<Rightarrow> harvester \<Rightarrow> harvester" where
  "pull opts hashBn ev st =
     st\<lparr>requested := requested st @ [(bnToMultihash58 opts hashBn, blockNumber ev)]\<rparr>"

text \<open>
  The callback of \<open>pull\<close>: it prints the outcome, and throws the error when there is one
  and \<open>fail-fast\<close> is set.
\<close>

definition pull_callback ::
  "harvester_options \<Rightarrow> string \<times> nat \<Rightarrow> string option \<Rightarrow> string option \<Rightarrow> harvester \<Rightarrow> harvester" where
  "pull_callback opts reg err res st =
     (let st' = st\<lparr>console := console st @
                   [\<lparr>line_hash = fst reg, line_block = snd reg,
                     line_outcome = (if err_truthy err then err else res)\<rparr>]\<rparr>
      in if err_truthy err \<and> fail_fast opts then st'\<lparr>thrown := err\<rparr> else st')"

fun handler :: "harvester_options \<Rightarrow> mode \<Rightarrow> event \<Rightarrow> harvester \<Rightarrow> harvester" where
  "handler opts File_mode ev st = pull opts (ipfs (args ev)) ev st"
| "handler opts Ectag_mode ev st = pull opts (ipfs (args ev)) ev st"
| "handler opts Ecdtag_mode ev st =
     pull opts (ipfsNew (args ev)) ev (pull opts (ipfsOrigin (args ev)) ev st)"

text \<open>The callback that \<open>startHarvesting\<close> gives to \<open>watchEvents\<close>.\<close>

definition on_event :: "harvester_options \<Rightarrow> string option \<Rightarrow> event \<Rightarrow> harvester \<Rightarrow> harvester" where
  "on_event opts err ev st = (if \<not> err_truthy err then handler opts (mode_opt opts) ev st else st)"

fun step :: "harvester_options \<Rightarrow> harvester \<Rightarrow> input \<Rightarrow> harvester" where
  "step opts st (Delivery err ev) = on_event opts err ev st"
| "step opts st (PullDone k err res) =
     (if k < length (requested st) then pull_callback opts (requested st ! k) err res st else st)"

text \<open>
  The loop: an exception thrown out of a callback is not caught anywhere, which ends the
  process; nothing is handled after it.
\<close>

fun harvest :: "harvester_options \<Rightarrow> harvester \<Rightarrow> input list \<Rightarrow> harvester" where
  "harvest opts st [] = st"
| "harvest opts st (i # rest) =
     (if thrown st \<noteq> None then st else harvest opts (step opts st i) rest)"

definition startHarvesting :: harvester where
  "startHarvesting = \<lparr>requested = [], console = [], thrown = None\<rparr>"

section \<open>Redundant retrieval\<close>

text \<open>
  Modelled from the spec: \<open>redundant.pull\<close> and \<open>redundant.providers\<close> belong to
  \<open>lib/libredundant\<close>, which is not among the sources; the commands only call them.
  The spec (section 4.5) says: \<open>pull\<close> is a no-op if the identifier is already present
  locally; otherwise it queries \<open>providers\<close> for candidate peers and attempts a fetch
  against each, sequentially, stopping at the first success and persisting the result;
  exhausting all candidates without success yields \<open>UnavailableContent\<close>, and the failure
  of a single candidate is swallowed. The state counts the provider queries and the fetch
  attempts that reach the network.
\<close>

type_synonym cid = string
type_synonym peer = string

record network =
  providers :: "cid \<Rightarrow> peer list"
  fetch_ok :: "peer \<Rightarrow> cid \<Rightarrow> bool"

record replica =
  present :: "cid list"
  provider_queries :: nat
  fetch_attempts :: nat

datatype status = Pulled | UnavailableContent

fun try_peers :: "network \<Rightarrow> cid \<Rightarrow> peer list \<Rightarrow> replica \<Rightarrow> replica \<times> bool" where
  "try_peers net c [] st = (st, False)"
| "try_peers net c (p # ps) st =
     (let st' = st\<lparr>fetch_attempts := fetch_attempts st + 1\<rparr> in
      if fetch_ok net p c then (st'\<lparr>present := c # present st'\<rparr>, True)
      else try_peers net c ps st')"

definition redundant_pull :: "network \<Rightarrow> cid \<Rightarrow> replica \<Rightarrow> replica \<times> status" where
  "redundant_pull net c st =
     (if c \<in> set (present st) then (st, Pulled)
      else
        (let st' = st\<lparr>provider_queries := provider_queries st + 1\<rparr>;
             (st'', ok) = try_peers net c (providers net c) st'
         in (st'', if ok then Pulled else UnavailableContent)))"

section \<open>Sample inputs\<close>

text \<open>
  Concrete inputs on which the model is run: a block function and a key derivation that
  stand in for the platform's, a key of 32 bytes and an entropy source.
\<close>

definition sample_block :: block_cipher where
  "sample_block k w = w + be128 k"

definition sample_lib :: crypto_lib where
  "sample_lib =
     \<lparr>aes256 = sample_block,
      other_ciphers = (\<lambda>alg. None),
      hkdf_derive = (\<lambda>hashAlg salt ikm info size. Inr (take size (salt @ ikm)))\<rparr>"

definition sample_key :: bytes where
  "sample_key = replicate 32 1"

definition sample_entropy :: "nat \<Rightarrow> byte" where
  "sample_entropy i = of_nat (7 * i + 1)"

definition sample_envelope :: envelope where
  "sample_envelope =
     \<lparr>env_algorithm = ''aes-256-ctr'',
      env_iv = ''01080f161d242b323940474e555c636a'',
      cipherText = [3, 11, 19]\<rparr>"

definition sample_kdf_options :: "jsval option \<Rightarrow> kdf_options" where
  "sample_kdf_options s =
     \<lparr>opt_hashAlg = None, opt_info = Some ''tag'', opt_size = Some 16, opt_salt = s\<rparr>"

definition zero_entropy :: "nat \<Rightarrow> byte" where
  "zero_entropy i = 0"

text \<open>A small group in the place of the curve: the bytes under addition, generated by 1.\<close>

definition sample_curve :: "byte curve" where
  "sample_curve =
     \<lparr>curve_add = (+), curve_inf = 0, curve_g = 1, curve_n = 256, curve_getX = unat,
      curve_encode = (\<lambda>P. [4, P]),
      curve_decode = (\<lambda>bs. case bs of [t, P] \<Rightarrow> if t = 4 then Some P else None | _ \<Rightarrow> None)\<rparr>"

definition sample_harvester_options :: "bool \<Rightarrow> harvester_options" where
  "sample_harvester_options ff =
     \<lparr>mode_opt = Ecdtag_mode, fail_fast = ff,
      bnToMultihash58 = (\<lambda>h. case h of None \<Rightarrow> ''undefined'' | Some k \<Rightarrow> replicate k CHR ''Q'')\<rparr>"

definition sample_event :: "nat \<Rightarrow> event" where
  "sample_event b =
     \<lparr>blockNumber = b, args = \<lparr>ipfs = None, ipfsOrigin = Some 1, ipfsNew = Some 2\<rparr>\<rparr>"

definition sample_network :: network where
  "sample_network =
     \<lparr>providers = (\<lambda>c. [''peerA'', ''peerB'', ''peerC'']),
      fetch_ok = (\<lambda>p c. p = ''peerB'')\<rparr>"

definition empty_replica :: replica where
  "empty_replica = \<lparr>present = [], provider_queries = 0, fetch_attempts = 0\<rparr>"

text \<open>The harvester after the delegation event of block 8 has been handled.\<close>

definition sample_harvester :: harvester where
  "sample_harvester = \<lparr>requested = [(''Q'', 8), (''QQ'', 8)], console = [], thrown = None\<rparr>"

definition sample_replica :: replica where
  "sample_replica = \<lparr>present = [''Qm1''], provider_queries = 1, fetch_attempts = 2\<rparr>"

text \<open>
  A group of seven points in the place of the curve for signatures: the numbers below 7
  under addition modulo 7, generated by 1. Opposite points share their \<open>x\<close> coordinate and differ
  in the parity of \<open>y\<close>; the nonce of iteration \<open>i\<close> is \<open>i\<close>.
\<close>

definition toy_x :: "nat \<Rightarrow> nat" where
  "toy_x P = (if P = 1 \<or> P = 6 then 1 else if P = 2 \<or> P = 5 then 9
              else if P = 3 \<or> P = 4 then 3 else 0)"

definition toy_y :: "nat \<Rightarrow> nat" where
  "toy_y P = (if P = 4 \<or> P = 5 \<or> P = 6 then 1 else 0)"

definition toy_pointFromX :: "nat \<Rightarrow> bool \<Rightarrow> nat option" where
  "toy_pointFromX x isOdd =
     (if x = 1 then Some (if isOdd then 6 else 1)
      else if x = 9 then Some (if isOdd then 5 else 2)
      else if x = 3 then Some (if isOdd then 4 else 3)
      else None)"

definition sample_signing_curve :: "nat ecdsa_curve" where
  "sample_signing_curve =
     \<lparr>curve_add = (\<lambda>P Q. (P + Q) mod 7), curve_inf = 0, curve_g = 1, curve_n = 7, curve_getX = toy_x,
      curve_encode = (\<lambda>P. [4, of_nat (toy_x P), of_nat (toy_y P)]),
      curve_decode = (\<lambda>bs. case bs of [t, x, y] \<Rightarrow> toy_pointFromX (unat x) (odd (unat y))
                                | _ \<Rightarrow> None),
      curve_p = 11, curve_getY = toy_y, curve_pointFromX = toy_pointFromX,
      drbg_generate = (\<lambda>d e i. 32 * i + 5)\<rparr>"


section \<open>Properties of the ciphers\<close>

lemma hexval_hexdigit: "n < 16 \<Longrightarrow> hexval (hexdigit n) = Some n"
  by (auto simp: hexval_def hexdigit_def Let_def)

lemma unat_byte_div16: "unat (b :: byte) div 16 < 16"
proof -
  have "unat b < 2 ^ LENGTH(8)" by (rule unsigned_less)
  then show ?thesis by simp
qed

lemma hex_roundtrip: "hex_decode (hex_encode bs) = bs"
  by (induction bs) (simp_all add: hex_encode_def hexval_hexdigit unat_byte_div16)

lemma hex_encode_length: "length (hex_encode bs) = 2 * length bs"
  by (induction bs) (simp_all add: hex_encode_def)

lemma ctr_crypt_length: "length (ctr_crypt E K ivb data) = length data"
  by (simp add: ctr_crypt_def)

lemma ctr_crypt_involution: "ctr_crypt E K ivb (ctr_crypt E K ivb data) = data"
  by (rule nth_equalityI) (simp_all add: ctr_crypt_def word_bw_assocs)

lemma randomBytes_length: "length (randomBytes n rnd) = n"
  by (simp add: randomBytes_def)

lemma getCipher_default: "getCipher lib ''aes-256-ctr'' = Some (aes_256_ctr (aes256 lib))"
  by (simp add: getCipher_def)

lemma encrypt_body_default:
  assumes "length K = 32"
  shows "encrypt_body lib P K no_options rnd =
           Inr \<lparr>env_algorithm = ''aes-256-ctr'',
                env_iv = hex_encode (randomBytes 16 rnd),
                cipherText = ctr_crypt (aes256 lib) K (randomBytes 16 rnd) (str2buf P None)\<rparr>"
  using assms
  by (simp add: encrypt_body_def createCipher_def createCipheriv_def getCipher_default
      aes_256_ctr_def no_options_def str_or_def randomBytes_length Let_def)

lemma encrypt_body_default_inv:
  assumes "algorithm opts = None" and "iv opts = None"
      and "encrypt_body lib P K opts rnd = Inr env"
  shows "length K = 32 \<and>
         env = \<lparr>env_algorithm = ''aes-256-ctr'',
                env_iv = hex_encode (randomBytes 16 rnd),
                cipherText = ctr_crypt (aes256 lib) K (randomBytes 16 rnd) (str2buf P None)\<rparr>"
  using assms
  by (auto simp add: encrypt_body_def createCipher_def createCipheriv_def getCipher_default
      aes_256_ctr_def str_or_def randomBytes_length Let_def split: if_splits sum.splits)

lemma sample_encrypt:
  "encrypt sample_lib (JBuf [1, 2, 3]) sample_key no_options sample_entropy =
     Inr (Some sample_envelope)"
  by code_simp

text \<open>
  C1. Claimed: for every plaintext \<open>P\<close> and every key \<open>K\<close> of 32 bytes, decrypting the
  envelope of \<open>encrypt(P, K)\<close> with \<open>K\<close> and the envelope's algorithm and iv returns
  exactly the bytes of \<open>P\<close>. What holds: it returns the bytes \<open>str2buf\<close> reads \<open>P\<close> as.
  For a \<open>Buffer\<close> these are the bytes of \<open>P\<close>; a string that looks hexadecimal or like
  base64 comes back decoded, not as its characters.
\<close>

theorem encrypt_decrypt_roundtrip:
  assumes "length K = 32"
  shows "roundtrip lib P K rnd = Inr (Some (str2buf P None))"
proof -
  let ?r = "randomBytes 16 rnd"
  have ne: "hex_encode ?r \<noteq> []"
    using hex_encode_length [of ?r] by (auto simp: randomBytes_length)
  show ?thesis
    using assms ne
    by (simp add: roundtrip_def encrypt_def encrypt_body_default decrypt_def decrypt_body_def
        envelope_options_def str_or_def createDecipheriv_def getCipher_default aes_256_ctr_def
        hex_roundtrip randomBytes_length ctr_crypt_involution Let_def)
qed

text \<open>The round trip of C1 on the sample inputs, for a \<open>Buffer\<close> of three bytes.\<close>

theorem encrypt_decrypt_roundtrip_witness:
  "length sample_key = 32 \<and>
   roundtrip sample_lib (JBuf [1, 2, 3]) sample_key sample_entropy = Inr (Some [1, 2, 3])"
  using encrypt_decrypt_roundtrip [of sample_key sample_lib "JBuf [1, 2, 3]" sample_entropy]
  by (simp add: sample_key_def)

text \<open>
  C1 as claimed fails for the string \<open>abcd\<close>: \<open>str2buf\<close> takes it for hexadecimal, so
  the round trip returns the two bytes \<open>ab cd\<close> and not the four characters.
\<close>

theorem hex_plaintext_counterexample:
  "roundtrip sample_lib (JStr ''abcd'') sample_key sample_entropy = Inr (Some [171, 205]) \<and>
   utf8 ''abcd'' = [97, 98, 99, 100]"
  by code_simp

text \<open>
  C4. Claimed: on a structurally inconsistent input (wrong key size, malformed iv, a cipher
  text the cipher rejects) \<open>decrypt\<close> fails with a \<open>DecryptionError\<close> that reaches the
  caller. What holds: \<open>decrypt\<close> catches the failure and returns \<open>null\<close>. The cipher is
  the one the options name, the iv is given, and the key has the wrong length, or the iv
  does not decode to the length the cipher asks for, or deciphering itself raises.
\<close>

theorem decrypt_failure_returns_null:
  assumes "getCipher lib (str_or (algorithm opts) ''aes-256-ctr'') = Some c"
      and "iv opts = Some v" and "truthy (Some v)"
      and "length K \<noteq> keyLength c
           \<or> length (str2buf v (Some Hex)) \<noteq> ivLength c
           \<or> isl (decipher_run c K (str2buf v (Some Hex))
                   (str2buf data (Some (case cipherEncoding opts of None \<Rightarrow> Base64 | Some e \<Rightarrow> e))))"
  shows "decrypt lib data K opts = Inr None"
  using assms
  by (auto simp add: decrypt_def decrypt_body_def createDecipheriv_def Let_def isl_def
      split: sum.splits)

text \<open>C4 on the sample envelope, with a key of 31 bytes.\<close>

theorem decrypt_failure_returns_null_witness:
  "getCipher sample_lib (str_or (algorithm (envelope_options sample_envelope)) ''aes-256-ctr'')
     = Some (aes_256_ctr sample_block) \<and>
   length (replicate 31 (1 :: byte)) \<noteq> keyLength (aes_256_ctr sample_block) \<and>
   decrypt sample_lib (JBuf [3, 11, 19]) (replicate 31 1) (envelope_options sample_envelope)
     = Inr None"
  using decrypt_failure_returns_null [of sample_lib "envelope_options sample_envelope"
      "aes_256_ctr sample_block" "JStr (env_iv sample_envelope)" "replicate 31 1" "JBuf [3, 11, 19]"]
  by (simp add: envelope_options_def sample_envelope_def str_or_def getCipher_def
      sample_lib_def aes_256_ctr_def)

text \<open>
  C4 as claimed fails for a key of 31 bytes: \<open>decrypt\<close> returns \<open>null\<close> (\<open>Inr None\<close>),
  and no exception (\<open>Inl\<close>) reaches the caller.
\<close>

theorem wrong_key_size_counterexample:
  "decrypt sample_lib (JBuf [3, 11, 19]) (replicate 31 1) (envelope_options sample_envelope)
     = Inr None \<and>
   \<not> isl (decrypt sample_lib (JBuf [3, 11, 19]) (replicate 31 1)
            (envelope_options sample_envelope))"
  by code_simp

text \<open>
  C6. An envelope that \<open>encrypt\<close> produces from options without \<open>algorithm\<close> and \<open>iv\<close>
  names the algorithm \<open>aes-256-ctr\<close>, and its iv (written in hexadecimal) is 16 bytes
  long, the iv length of that algorithm.
\<close>

theorem default_envelope_shape:
  assumes "algorithm opts = None" and "iv opts = None"
      and "encrypt lib P K opts rnd = Inr (Some env)"
  shows "env_algorithm env = ''aes-256-ctr'' \<and>
         length (hex_decode (env_iv env)) = 16 \<and>
         getCipher lib (env_algorithm env) = Some (aes_256_ctr (aes256 lib)) \<and>
         ivLength (aes_256_ctr (aes256 lib)) = 16"
proof -
  from assms(3) have "encrypt_body lib P K opts rnd = Inr env"
    by (simp add: encrypt_def split: sum.splits)
  from encrypt_body_default_inv [OF assms(1,2) this] show ?thesis
    by (simp add: hex_roundtrip randomBytes_length getCipher_default aes_256_ctr_def)
qed

text \<open>C6 on the sample inputs.\<close>

theorem default_envelope_shape_witness:
  "algorithm no_options = None \<and> iv no_options = None \<and>
   encrypt sample_lib (JBuf [1, 2, 3]) sample_key no_options sample_entropy =
     Inr (Some sample_envelope) \<and>
   env_algorithm sample_envelope = ''aes-256-ctr'' \<and>
   length (hex_decode (env_iv sample_envelope)) = 16"
proof -
  have o: "algorithm no_options = None" "iv no_options = None"
    by (simp_all add: no_options_def)
  from default_envelope_shape [OF o sample_encrypt] show ?thesis
    using o sample_encrypt by simp
qed

text \<open>
  C10. \<open>zeros\<close> is not defined in the module. A call of \<open>createDecipher\<close> whose options
  have no \<open>iv\<close> raises a \<open>ReferenceError\<close>, and a call of \<open>decrypt\<close> whose options have
  no \<open>iv\<close> catches it and returns \<open>null\<close>.
\<close>

theorem missing_iv_reference_error:
  assumes "iv opts = None"
  shows "createDecipher lib K opts = Inl (ReferenceError ''zeros'') \<and>
         decrypt lib data K opts = Inr None"
  using assms
  by (simp add: createDecipher_def decrypt_def decrypt_body_def zeros_def Let_def)

text \<open>C10 on the sample inputs, with the empty options.\<close>

theorem missing_iv_reference_error_witness:
  "iv no_options = None \<and>
   createDecipher sample_lib sample_key no_options = Inl (ReferenceError ''zeros'') \<and>
   decrypt sample_lib (JBuf [1, 2, 3]) sample_key no_options = Inr None"
  using missing_iv_reference_error [of no_options sample_lib sample_key "JBuf [1, 2, 3]"]
  by (simp add: no_options_def)

section \<open>Properties of the key derivation\<close>

lemma fresh_salt_is_reported:
  assumes "opt_salt opts = None" and "deriveSecretKey lib secret opts rnd = Inr m"
  shows "salt (hkdf m) = hex_encode (randomBytes 32 rnd)"
  using assms by (auto simp add: deriveSecretKey_def Let_def split: sum.splits)

lemma salt_case_collision:
  "deriveSecretKey lib secret (opts\<lparr>opt_salt := Some (JStr ''ab'')\<rparr>) rnd =
   deriveSecretKey lib secret (opts\<lparr>opt_salt := Some (JStr ''AB'')\<rparr>) rnd"
  by (simp add: deriveSecretKey_def hexval_def)

lemma hex_encode_inj: "hex_encode a = hex_encode b \<Longrightarrow> a = b"
  by (metis hex_roundtrip)

lemma sample_entropies_differ: "randomBytes 32 sample_entropy \<noteq> randomBytes 32 zero_entropy"
proof
  assume "randomBytes 32 sample_entropy = randomBytes 32 zero_entropy"
  then have "\<forall>i \<in> set [0..<32]. sample_entropy i = zero_entropy i"
    by (simp add: randomBytes_def)
  then have "sample_entropy 0 = zero_entropy 0" by simp
  then show False by (simp add: sample_entropy_def zero_entropy_def)
qed

text \<open>
  C5. Claimed: for a fixed tuple (secret, salt, info, size) \<open>deriveSecretKey\<close> returns the
  same key on every invocation, and two different salts yield different outputs. What
  holds: with a salt that is given and not the empty string, the result is the same on
  every invocation, whatever the random source returns; two salts that decode to the same
  bytes yield the same result; and two salts that decode to different bytes yield
  different results whenever the derivation succeeds, since the result reports its salt.
\<close>

theorem deriveSecretKey_deterministic:
  assumes "truthy (Some s1)" and "truthy (Some s2)"
  shows "deriveSecretKey lib secret (opts\<lparr>opt_salt := Some s1\<rparr>) rnd1 =
           deriveSecretKey lib secret (opts\<lparr>opt_salt := Some s1\<rparr>) rnd2 \<and>
         (str2buf s1 (Some Hex) = str2buf s2 (Some Hex) \<longrightarrow>
            deriveSecretKey lib secret (opts\<lparr>opt_salt := Some s1\<rparr>) rnd1 =
              deriveSecretKey lib secret (opts\<lparr>opt_salt := Some s2\<rparr>) rnd2) \<and>
         (str2buf s1 (Some Hex) \<noteq> str2buf s2 (Some Hex) \<longrightarrow>
            isl (deriveSecretKey lib secret (opts\<lparr>opt_salt := Some s1\<rparr>) rnd1) \<or>
            deriveSecretKey lib secret (opts\<lparr>opt_salt := Some s1\<rparr>) rnd1 \<noteq>
              deriveSecretKey lib secret (opts\<lparr>opt_salt := Some s2\<rparr>) rnd2)"
  using assms
  by (auto simp add: deriveSecretKey_def Let_def split: sum.splits dest: hex_encode_inj)

text \<open>
  C5 on the sample inputs: the salt \<open>0a0b\<close> with two random sources, the same salt as a
  \<open>Buffer\<close>, and the salt \<open>0a0c\<close>, which gives another result.
\<close>

theorem deriveSecretKey_deterministic_witness:
  "truthy (Some (JStr ''0a0b'')) \<and> truthy (Some (JBuf [10, 11])) \<and> truthy (Some (JStr ''0a0c'')) \<and>
   str2buf (JStr ''0a0b'') (Some Hex) = str2buf (JBuf [10, 11]) (Some Hex) \<and>
   str2buf (JStr ''0a0b'') (Some Hex) \<noteq> str2buf (JStr ''0a0c'') (Some Hex) \<and>
   deriveSecretKey sample_lib [1, 2, 3] (sample_kdf_options (Some (JStr ''0a0b''))) sample_entropy =
   deriveSecretKey sample_lib [1, 2, 3] (sample_kdf_options (Some (JStr ''0a0b''))) zero_entropy \<and>
   deriveSecretKey sample_lib [1, 2, 3] (sample_kdf_options (Some (JStr ''0a0b''))) sample_entropy =
   deriveSecretKey sample_lib [1, 2, 3] (sample_kdf_options (Some (JBuf [10, 11]))) zero_entropy \<and>
   deriveSecretKey sample_lib [1, 2, 3] (sample_kdf_options (Some (JStr ''0a0b''))) sample_entropy \<noteq>
   deriveSecretKey sample_lib [1, 2, 3] (sample_kdf_options (Some (JStr ''0a0c''))) zero_entropy"
proof -
  have t: "truthy (Some (JStr ''0a0b''))" "truthy (Some (JBuf [10, 11]))"
      "truthy (Some (JStr ''0a0c''))"
    by simp_all
  have d: "str2buf (JStr ''0a0b'') (Some Hex) = str2buf (JBuf [10, 11]) (Some Hex)"
    by (simp add: hexval_def)
  have n: "str2buf (JStr ''0a0b'') (Some Hex) \<noteq> str2buf (JStr ''0a0c'') (Some Hex)"
    by (simp add: hexval_def)
  have ok: "\<not> isl (deriveSecretKey sample_lib [1, 2, 3]
                     (sample_kdf_options (Some (JStr ''0a0b''))) sample_entropy)"
    by (simp add: deriveSecretKey_def sample_lib_def Let_def)
  have u: "(sample_kdf_options None)\<lparr>opt_salt := Some x\<rparr> = sample_kdf_options (Some x)" for x
    by (simp add: sample_kdf_options_def)
  from deriveSecretKey_deterministic [OF t(1,2), of sample_lib "[1, 2, 3]" "sample_kdf_options None"
      sample_entropy zero_entropy]
    deriveSecretKey_deterministic [OF t(1,3), of sample_lib "[1, 2, 3]" "sample_kdf_options None"
      sample_entropy zero_entropy]
    t d n ok
  show ?thesis unfolding u by blast
qed

text \<open>
  C5 as claimed fails twice. The salts \<open>ab\<close> and \<open>AB\<close> are different salts that decode
  to the same byte, and the results are equal. With the empty string as salt, the salt is
  drawn at random, and two invocations with the same tuple return different results.
\<close>

theorem salt_case_counterexample:
  "JStr ''ab'' \<noteq> JStr ''AB'' \<and>
   deriveSecretKey sample_lib [1, 2, 3] (sample_kdf_options (Some (JStr ''ab''))) sample_entropy =
   deriveSecretKey sample_lib [1, 2, 3] (sample_kdf_options (Some (JStr ''AB''))) sample_entropy \<and>
   deriveSecretKey sample_lib [1, 2, 3] (sample_kdf_options (Some (JStr ''''))) sample_entropy \<noteq>
   deriveSecretKey sample_lib [1, 2, 3] (sample_kdf_options (Some (JStr ''''))) zero_entropy"
  using sample_entropies_differ
  by (auto simp add: deriveSecretKey_def sample_kdf_options_def sample_lib_def hexval_def Let_def
      dest: hex_encode_inj)

section \<open>Properties of the shared key\<close>

lemma mul_Suc: "mul C (Suc k) P = curve_add C P (mul C k P)"
  by (simp add: mul_def)

lemma mul_0: "mul C 0 P = curve_inf C"
  by (simp add: mul_def)

lemma mul_add:
  assumes "\<forall>P Q R. curve_add C (curve_add C P Q) R = curve_add C P (curve_add C Q R)"
      and "\<forall>P. curve_add C (curve_inf C) P = P"
  shows "mul C (j + k) P = curve_add C (mul C j P) (mul C k P)"
  using assms by (induction j) (simp_all add: mul_Suc mul_0)

lemma mul_mul:
  assumes "\<forall>P Q R. curve_add C (curve_add C P Q) R = curve_add C P (curve_add C Q R)"
      and "\<forall>P. curve_add C (curve_inf C) P = P"
  shows "mul C j (mul C k P) = mul C (j * k) P"
proof (induction j)
  case 0
  show ?case by (simp add: mul_0)
next
  case (Suc j)
  then show ?case by (simp add: mul_Suc mul_add [OF assms])
qed

text \<open>
  C2. For two key pairs A and B, \<open>deriveSharedKey(A.private, B.public)\<close> equals
  \<open>deriveSharedKey(B.private, A.public)\<close>. The curve is a parameter; what is used of it
  is that adding points is associative, that the point at infinity is neutral, and that
  \<open>keyFromPublic\<close> reads back the point that \<open>getPublic('arr')\<close> wrote.
\<close>

theorem deriveSharedKey_symmetric:
  assumes "\<forall>P Q R. curve_add C (curve_add C P Q) R = curve_add C P (curve_add C Q R)"
      and "\<forall>P. curve_add C (curve_inf C) P = P"
      and "\<forall>P. curve_decode C (curve_encode C P) = Some P"
  shows "deriveSharedKey C privA (private2public C privB) =
         deriveSharedKey C privB (private2public C privA)"
proof -
  let ?a = "keyFromPrivate C privA" and ?b = "keyFromPrivate C privB"
  have "mul C ?a (mul C ?b (curve_g C)) = mul C ?b (mul C ?a (curve_g C))"
    by (simp add: mul_mul [OF assms(1,2)] mult.commute)
  then show ?thesis
    using assms(3)
    by (simp add: deriveSharedKey_def private2public_def keyFromPublic_def getPublic_def)
qed

text \<open>C2 on the sample group, with the private keys 5 and 7: both sides are 35.\<close>

theorem deriveSharedKey_symmetric_witness:
  "(\<forall>P Q R. curve_add sample_curve (curve_add sample_curve P Q) R =
       curve_add sample_curve P (curve_add sample_curve Q R)) \<and>
   (\<forall>P. curve_add sample_curve (curve_inf sample_curve) P = P) \<and>
   (\<forall>P. curve_decode sample_curve (curve_encode sample_curve P) = Some P) \<and>
   deriveSharedKey sample_curve [5] (private2public sample_curve [7]) =
     deriveSharedKey sample_curve [7] (private2public sample_curve [5]) \<and>
   deriveSharedKey sample_curve [5] (private2public sample_curve [7]) = Inr [35]"
proof -
  have h1: "\<forall>P Q R. curve_add sample_curve (curve_add sample_curve P Q) R =
       curve_add sample_curve P (curve_add sample_curve Q R)"
    by (simp add: sample_curve_def add.assoc)
  have h2: "\<forall>P. curve_add sample_curve (curve_inf sample_curve) P = P"
    by (simp add: sample_curve_def)
  have h3: "\<forall>P. curve_decode sample_curve (curve_encode sample_curve P) = Some P"
    by (simp add: sample_curve_def)
  have v: "deriveSharedKey sample_curve [5] (private2public sample_curve [7]) = Inr [35]"
    by code_simp
  from deriveSharedKey_symmetric [OF h1 h2 h3, of "[5]" "[7]"] h1 h2 h3 v
  show ?thesis by blast
qed

section \<open>Properties of the signatures\<close>

lemma multiples_mul:
  assumes "\<forall>j k. curve_add C (mul C j (curve_g C)) (mul C k (curve_g C)) = mul C (j + k) (curve_g C)"
  shows "mul C j (mul C k (curve_g C)) = mul C (j * k) (curve_g C)"
proof (induction j)
  case 0
  show ?case by (simp add: mul_0)
next
  case (Suc j)
  then show ?case using assms by (simp add: mul_Suc)
qed

lemma mul_mod_order:
  assumes add: "\<forall>j k. curve_add C (mul C j (curve_g C)) (mul C k (curve_g C))
                        = mul C (j + k) (curve_g C)"
      and order: "mul C (curve_n C) (curve_g C) = curve_inf C"
  shows "mul C (a mod curve_n C) (curve_g C) = mul C a (curve_g C)"
proof -
  let ?n = "curve_n C" and ?G = "curve_g C"
  have inf: "mul C (q * ?n) ?G = mul C 0 ?G" for q
  proof -
    have "mul C (q * ?n) ?G = mul C q (mul C ?n ?G)"
      by (simp add: multiples_mul [OF add])
    also have "\<dots> = mul C q (mul C 0 ?G)"
      by (simp add: order mul_0)
    also have "\<dots> = mul C 0 ?G"
      by (simp add: multiples_mul [OF add])
    finally show ?thesis .
  qed
  have "mul C a ?G = mul C ((a div ?n) * ?n + a mod ?n) ?G"
    by simp
  also have "\<dots> = curve_add C (mul C ((a div ?n) * ?n) ?G) (mul C (a mod ?n) ?G)"
    using add by simp
  also have "\<dots> = curve_add C (mul C 0 ?G) (mul C (a mod ?n) ?G)"
    by (simp only: inf)
  also have "\<dots> = mul C (a mod ?n) ?G"
    using add by simp
  finally show ?thesis by simp
qed

lemma invm_correct:
  assumes "coprime x m" and "1 < m"
  shows "x * invm x m mod m = 1"
proof -
  have "x \<noteq> 0" using assms by (cases "x = 0") auto
  from bezout_nat [OF this, of m] obtain u v where uv: "x * u = m * v + gcd x m"
    by blast
  then have "x * u = m * v + 1" using assms(1) by simp
  then have "x * u mod m = (m * v + 1) mod m" by (simp only:)
  also have "\<dots> = 1 mod m" by (rule mod_mult_self4)
  also have "\<dots> = 1" using assms(2) by simp
  finally have "x * (u mod m) mod m = 1" by (simp add: mod_mult_right_eq)
  moreover have "u mod m \<in> set [0..<m]" using assms(2) by simp
  ultimately have "\<exists>y. y \<in> set [0..<m] \<and> x * y mod m = 1"
    by blast
  then have "find (\<lambda>y. x * y mod m = 1) [0..<m] \<noteq> None"
    by (simp only: find_None_iff not_not)
  then obtain y where y: "find (\<lambda>y. x * y mod m = 1) [0..<m] = Some y"
    by blast
  then have "x * y mod m = 1"
    by (auto simp: find_Some_iff)
  with y show ?thesis
    by (simp add: invm_def)
qed

lemma int_mod_one:
  fixes x m :: nat
  assumes "x mod m = 1"
  shows "\<exists>q. int x = 1 + int m * q"
proof -
  have "x = m * (x div m) + x mod m" by simp
  with assms have "x = m * (x div m) + 1" by simp
  then have "int x = 1 + int m * int (x div m)"
    by (metis add.commute of_nat_1 of_nat_add of_nat_mult)
  then show ?thesis ..
qed

text \<open>
  The arithmetic of the recovery: with \<open>s = k\<^sup>-\<^sup>1 (r d + e)\<close>, the scalars
  \<open>-e r\<^sup>-\<^sup>1\<close> and \<open>s r\<^sup>-\<^sup>1 k\<close> add up to \<open>d\<close> modulo the order.
\<close>

lemma ecdsa_scalar:
  fixes m r ri k ki d e :: nat
  assumes m: "1 < m" and r: "r * ri mod m = 1" and k: "k * ki mod m = 1"
  shows "(nat (((int m - int e) * int ri) mod int m) + ((ki * (r * d + e)) mod m * ri mod m) * k) mod m
         = d mod m"
proof -
  let ?N = "int m" and ?E = "int e" and ?RI = "int ri" and ?K = "int k" and ?KI = "int ki"
  let ?R = "int r" and ?D = "int d"
  from int_mod_one [OF k] obtain a where a: "?K * ?KI = 1 + ?N * a" by auto
  from int_mod_one [OF r] obtain b where b: "?R * ?RI = 1 + ?N * b" by auto
  let ?X = "(?N - ?E) * ?RI + ?KI * (?R * ?D + ?E) * ?RI * ?K"
  have "?X = (?N - ?E) * ?RI + (?K * ?KI) * ((?R * ?D + ?E) * ?RI)"
    by (simp add: algebra_simps)
  also have "\<dots> = (?N - ?E) * ?RI + (1 + ?N * a) * ((?R * ?D + ?E) * ?RI)"
    by (simp only: a)
  also have "\<dots> = ?N * ?RI + (?R * ?RI) * ?D + ?N * a * ((?R * ?D + ?E) * ?RI)"
    by (simp add: algebra_simps)
  also have "\<dots> = ?N * ?RI + (1 + ?N * b) * ?D + ?N * a * ((?R * ?D + ?E) * ?RI)"
    by (simp only: b)
  also have "\<dots> = ?D + ?N * (?RI + b * ?D + a * ((?R * ?D + ?E) * ?RI))"
    by (simp add: algebra_simps)
  finally have X: "?X mod ?N = ?D mod ?N"
    by simp
  have pos: "0 \<le> ((?N - ?E) * ?RI) mod ?N" using m by simp
  have "int ((nat (((?N - ?E) * ?RI) mod ?N) + ((ki * (r * d + e)) mod m * ri mod m) * k) mod m)
        = (((?N - ?E) * ?RI) mod ?N + ((?KI * (?R * ?D + ?E)) mod ?N * ?RI mod ?N) * ?K) mod ?N"
    using pos by (simp add: zmod_int)
  also have "\<dots> = ?X mod ?N"
  proof -
    have 1: "((?N - ?E) * ?RI) mod ?N mod ?N = ((?N - ?E) * ?RI) mod ?N"
      by simp
    have "(?KI * (?R * ?D + ?E)) mod ?N * ?RI mod ?N = ?KI * (?R * ?D + ?E) * ?RI mod ?N"
      by (rule mod_mult_left_eq)
    then have 2: "((?KI * (?R * ?D + ?E)) mod ?N * ?RI mod ?N) * ?K mod ?N
          = ?KI * (?R * ?D + ?E) * ?RI * ?K mod ?N"
      by (metis mod_mult_left_eq)
    show ?thesis
      by (rule mod_add_cong [OF 1 2])
  qed
  also have "\<dots> = int (d mod m)"
    using X by (simp add: zmod_int)
  finally show ?thesis by (simp only: of_nat_eq_iff)
qed

lemma sign_loop_step:
  "sign_loop C d e iter =
     (let k = truncateToN C (drbg_generate C d e iter) True in
      if nonce_accepted C d e k then Some (signature_with C d e k)
      else sign_loop C d e (Suc iter))"
  by (subst sign_loop.simps) (auto simp: nonce_accepted_def signature_with_def Let_def)

lemma sign_loop_Some:
  assumes "sign_loop C d e iter = Some sg"
  shows "\<exists>k. nonce_accepted C d e k \<and> sg = signature_with C d e k"
  using assms
proof (induction rule: sign_loop.raw_induct [rotated, consumes 1, case_names step])
  case (step loop C d e iter sg)
  let ?k = "truncateToN C (drbg_generate C d e iter) True"
  show ?case
  proof (cases "nonce_accepted C d e ?k")
    case True
    with step(2) have "sg = signature_with C d e ?k"
      by (auto simp: nonce_accepted_def signature_with_def Let_def split: if_splits)
    with True show ?thesis by blast
  next
    case False
    with step(2) have "loop C d e (Suc iter) = Some sg"
      by (auto simp: nonce_accepted_def Let_def split: if_splits)
    then show ?thesis by (rule step(1))
  qed
qed

lemma sign_loop_returns:
  assumes "nonce_accepted C d e (truncateToN C (drbg_generate C d e i) True)" and "iter \<le> i"
  shows "\<exists>sg. sign_loop C d e iter = Some sg"
  using assms(2)
proof (induction "i - iter" arbitrary: iter)
  case 0
  then have "iter = i" by simp
  with assms(1) show ?case
    by (simp add: sign_loop_step [of C d e i])
next
  case (Suc j)
  then have "\<exists>sg. sign_loop C d e (Suc iter) = Some sg" by simp
  then show ?case
    by (auto simp add: sign_loop_step [of C d e iter] Let_def)
qed

lemma recoverPubKey_of_nonce:
  fixes C :: "'p ecdsa_curve"
  assumes add: "\<forall>j k. curve_add C (mul C j (curve_g C)) (mul C k (curve_g C))
                        = mul C (j + k) (curve_g C)"
      and order: "mul C (curve_n C) (curve_g C) = curve_inf C"
      and prime: "\<forall>x. 0 < x \<and> x < curve_n C \<longrightarrow> coprime x (curve_n C)"
      and field: "curve_n C \<le> curve_p C \<and> curve_p C < 2 * curve_n C"
      and points: "\<forall>k. 1 < k \<and> k < curve_n C - 1 \<and> mul C k (curve_g C) \<noteq> curve_inf C \<longrightarrow>
                     curve_getX C (mul C k (curve_g C)) < curve_p C \<and>
                     curve_pointFromX C (curve_getX C (mul C k (curve_g C)))
                       (odd (curve_getY C (mul C k (curve_g C)))) = Some (mul C k (curve_g C))"
      and acc: "nonce_accepted C d e k"
  shows "recoverPubKey C e (signature_with C d e k) (recoveryParam (signature_with C d e k))
         = Inr (mul C d (curve_g C))"
proof -
  let ?n = "curve_n C" and ?G = "curve_g C"
  let ?kp = "mul C k ?G"
  let ?x = "curve_getX C ?kp"
  let ?r = "?x mod ?n"
  let ?b = "if odd (curve_getY C ?kp) then 1 else 0 :: nat"
  let ?c = "if ?x \<noteq> ?r then 2 else 0 :: nat"
  let ?s = "(invm k ?n * (?r * d + e)) mod ?n"
  let ?ri = "invm ?r ?n"
  from acc have k: "1 < k" "k < ?n - 1" "?kp \<noteq> curve_inf C" and r: "?r \<noteq> 0"
    by (simp_all add: nonce_accepted_def Let_def)
  have sg: "signature_with C d e k = \<lparr>sig_r = ?r, sig_s = ?s, recoveryParam = ?b + ?c\<rparr>"
    by (simp add: signature_with_def Let_def)
  have n1: "1 < ?n" using k by simp
  from points k have xp: "?x < curve_p C"
    and pt: "curve_pointFromX C ?x (odd (curve_getY C ?kp)) = Some ?kp"
    by auto
  have j4: "\<not> ?b + ?c \<ge> 4" by simp
  have oddj: "odd (?b + ?c) = odd (curve_getY C ?kp)" by simp
  have second: "((?b + ?c) div 2 \<noteq> 0) = (?x \<noteq> ?r)" by simp
  have wrap: "a mod m = a - m" if "m \<le> a" "a < 2 * m" for a m :: nat
  proof -
    from that have "a - m < m" by simp
    then have "(a - m) mod m = a - m" by simp
    moreover have "a mod m = (a - m) mod m" using that(1) by (simp add: le_mod_geq)
    ultimately show ?thesis by simp
  qed
  have xeq: "(if ?x \<noteq> ?r then ?r + ?n else ?r) = ?x"
  proof (cases "?x = ?r")
    case True
    then show ?thesis by simp
  next
    case False
    then have le: "?n \<le> ?x" by (metis mod_less not_le)
    moreover have "?x < 2 * ?n" using xp field by simp
    ultimately have "?r = ?x - ?n" by (rule wrap)
    with le False show ?thesis by simp
  qed
  have nothrow: "\<not> (?r \<ge> curve_p C mod ?n \<and> ?x \<noteq> ?r)"
  proof
    assume a: "?r \<ge> curve_p C mod ?n \<and> ?x \<noteq> ?r"
    then have "?x = ?r + ?n" using xeq by (simp split: if_splits)
    moreover have "curve_p C mod ?n = curve_p C - ?n"
      using field by (intro wrap) simp_all
    ultimately show False using a xp field by simp
  qed
  have rpos: "0 < ?r \<and> ?r < ?n" using r n1 by simp
  have kpos: "0 < k \<and> k < ?n" using k by simp
  have inv_r: "?r * ?ri mod ?n = 1"
    using invm_correct [of ?r ?n] prime rpos n1 by blast
  have inv_k: "k * invm k ?n mod ?n = 1"
    using invm_correct [of k ?n] prime kpos n1 by blast
  let ?s1 = "nat (((int ?n - int e) * int ?ri) mod int ?n)"
  let ?s2 = "(?s * ?ri) mod ?n"
  have "curve_add C (mul C ?s1 ?G) (mul C ?s2 ?kp) = mul C (?s1 + ?s2 * k) ?G"
    using add by (simp add: multiples_mul [OF add])
  also have "\<dots> = mul C ((?s1 + ?s2 * k) mod ?n) ?G"
    by (simp add: mul_mod_order [OF add order])
  also have "(?s1 + ?s2 * k) mod ?n = d mod ?n"
    using ecdsa_scalar [OF n1 inv_r inv_k, of e d] by (simp add: mult.commute)
  also have "mul C (d mod ?n) ?G = mul C d ?G"
    by (rule mul_mod_order [OF add order])
  finally have Q: "curve_add C (mul C ?s1 ?G) (mul C ?s2 ?kp) = mul C d ?G" .
  show ?thesis
    unfolding recoverPubKey_def sg
    using j4 oddj second xeq nothrow pt Q
    by (simp add: Let_def)
qed

text \<open>
  C3. For a private key and a digest, \<open>recovery\<close> of the signature that \<open>sign\<close> returns,
  over the same digest, gives the public key that \<open>private2public\<close> gives. The curve is a
  parameter; what is used of it is that adding multiples of the base point adds their
  scalars, that the base point has order \<open>n\<close>, that every number between 0 and \<open>n\<close> is
  coprime to \<open>n\<close>, that \<open>n \<le> p < 2 n\<close>, and that \<open>pointFromX\<close> finds a multiple of
  the base point from its \<open>x\<close> coordinate, which is below \<open>p\<close>, and the parity of its
  \<open>y\<close> coordinate. The loop of \<open>sign\<close> returns when some iteration draws a nonce that it
  accepts.
\<close>

theorem recovery_of_sign:
  fixes C :: "'p ecdsa_curve"
  assumes add: "\<forall>j k. curve_add C (mul C j (curve_g C)) (mul C k (curve_g C))
                        = mul C (j + k) (curve_g C)"
      and order: "mul C (curve_n C) (curve_g C) = curve_inf C"
      and prime: "\<forall>x. 0 < x \<and> x < curve_n C \<longrightarrow> coprime x (curve_n C)"
      and field: "curve_n C \<le> curve_p C \<and> curve_p C < 2 * curve_n C"
      and points: "\<forall>k. 1 < k \<and> k < curve_n C - 1 \<and> mul C k (curve_g C) \<noteq> curve_inf C \<longrightarrow>
                     curve_getX C (mul C k (curve_g C)) < curve_p C \<and>
                     curve_pointFromX C (curve_getX C (mul C k (curve_g C)))
                       (odd (curve_getY C (mul C k (curve_g C)))) = Some (mul C k (curve_g C))"
      and nonce: "nonce_accepted C (keyFromPrivate C priv) (truncateToN C (be_nat msg) False)
                    (candidate C msg priv i)"
  shows "\<exists>sg. sign C msg priv = Some sg \<and> recovery C sg msg = Inr (private2public C priv)"
proof -
  let ?d = "keyFromPrivate C priv" and ?e = "truncateToN C (be_nat msg) False"
  from nonce have "nonce_accepted C ?d ?e (truncateToN C (drbg_generate C ?d ?e i) True)"
    by (simp add: candidate_def)
  from sign_loop_returns [OF this, of 0] obtain sg where sg: "sign_loop C ?d ?e 0 = Some sg"
    by auto
  from sign_loop_Some [OF sg] obtain k
    where k: "nonce_accepted C ?d ?e k" and sgk: "sg = signature_with C ?d ?e k"
    by auto
  have "recoverPubKey C ?e sg (recoveryParam sg) = Inr (mul C ?d (curve_g C))"
    unfolding sgk by (rule recoverPubKey_of_nonce [OF add order prime field points k])
  then have "recovery C sg msg = Inr (private2public C priv)"
    by (simp add: recovery_def private2public_def getPublic_def)
  with sg show ?thesis by (simp add: sign_def)
qed

lemma toy_fields:
  "curve_add sample_signing_curve P Q = (P + Q) mod 7" "curve_inf sample_signing_curve = 0"
  "curve_g sample_signing_curve = 1" "curve_n sample_signing_curve = 7"
  "curve_p sample_signing_curve = 11" "curve_getX sample_signing_curve = toy_x"
  "curve_getY sample_signing_curve = toy_y"
  "curve_pointFromX sample_signing_curve = toy_pointFromX"
  "drbg_generate sample_signing_curve d e i = 32 * i + 5"
  by (simp_all add: sample_signing_curve_def)

lemma toy_mul: "mul sample_signing_curve k (Suc 0) = k mod 7"
  by (induction k) (simp_all add: mul_Suc mul_0 toy_fields mod_Suc_eq)

lemma toy_coprime: "\<forall>x::nat. 0 < x \<and> x < 7 \<longrightarrow> coprime x 7"
proof (intro allI impI)
  fix x :: nat assume "0 < x \<and> x < 7"
  then have "x = 1 \<or> x = 2 \<or> x = 3 \<or> x = 4 \<or> x = 5 \<or> x = 6" by arith
  then show "coprime x 7"
    unfolding coprime_iff_gcd_eq_1 by (elim disjE) (simp_all add: gcd_non_0_nat)
qed

lemma toy_points:
  "\<forall>k::nat. 1 < k \<and> k < 7 - 1 \<and> k mod 7 \<noteq> 0 \<longrightarrow>
     toy_x (k mod 7) < 11 \<and>
     toy_pointFromX (toy_x (k mod 7)) (odd (toy_y (k mod 7))) = Some (k mod 7)"
proof (intro allI impI)
  fix k :: nat assume "1 < k \<and> k < 7 - 1 \<and> k mod 7 \<noteq> 0"
  then have "k = 2 \<or> k = 3 \<or> k = 4 \<or> k = 5" by arith
  then show "toy_x (k mod 7) < 11 \<and>
      toy_pointFromX (toy_x (k mod 7)) (odd (toy_y (k mod 7))) = Some (k mod 7)"
    by (elim disjE) (simp_all add: toy_x_def toy_y_def toy_pointFromX_def)
qed

lemma toy_byteLength: "byteLength 5 = 1" "byteLength 37 = 1" "byteLength 69 = 1" "byteLength 160 = 1"
  by code_simp+

lemma toy_bitLength: "bitLength 7 = 3"
  by code_simp

lemma toy_digest: "truncateToN sample_signing_curve (be_nat [160]) False = 5"
  by (simp add: truncateToN_def toy_fields be_nat_def toy_byteLength toy_bitLength)

lemma toy_private: "keyFromPrivate sample_signing_curve [5] = 5"
  by (simp add: keyFromPrivate_def toy_fields be_nat_def)

lemma toy_candidate:
  "candidate sample_signing_curve [160] [5] 0 = 0"
  "candidate sample_signing_curve [160] [5] (Suc 0) = Suc 0"
  "candidate sample_signing_curve [160] [5] (Suc (Suc 0)) = 2"
  "candidate sample_signing_curve [160] [5] 2 = 2"
  by (simp_all add: candidate_def truncateToN_def toy_fields toy_byteLength toy_bitLength)

lemma toy_invm: "invm 2 7 = 4"
  by code_simp

lemma toy_nonce: "nonce_accepted sample_signing_curve 5 5 2"
  by (simp add: nonce_accepted_def toy_fields toy_mul toy_x_def toy_invm Let_def)

lemma toy_rejected:
  "\<not> nonce_accepted sample_signing_curve 5 5 0"
  "\<not> nonce_accepted sample_signing_curve 5 5 (Suc 0)"
  by (simp_all add: nonce_accepted_def)

lemma toy_signature:
  "signature_with sample_signing_curve 5 5 2 = \<lparr>sig_r = 2, sig_s = 4, recoveryParam = 2\<rparr>"
  by (simp add: signature_with_def toy_fields toy_mul toy_x_def toy_y_def toy_invm Let_def)

lemma toy_sign:
  "sign sample_signing_curve [160] [5] = Some \<lparr>sig_r = 2, sig_s = 4, recoveryParam = 2\<rparr>"
proof -
  have c: "truncateToN sample_signing_curve (drbg_generate sample_signing_curve 5 5 i) True
           = candidate sample_signing_curve [160] [5] i" for i
    by (simp add: candidate_def toy_digest toy_private)
  have "sign_loop sample_signing_curve 5 5 0 = sign_loop sample_signing_curve 5 5 (Suc 0)"
    by (subst sign_loop_step) (simp add: c toy_candidate toy_rejected)
  also have "\<dots> = sign_loop sample_signing_curve 5 5 (Suc (Suc 0))"
    by (subst sign_loop_step) (simp add: c toy_candidate toy_rejected)
  also have "\<dots> = Some (signature_with sample_signing_curve 5 5 2)"
    by (subst sign_loop_step) (simp add: c toy_candidate toy_nonce)
  finally show ?thesis
    by (simp add: sign_def toy_digest toy_private toy_signature)
qed

text \<open>
  C3 on the sample group, with the private key 5 and the digest \<open>a0\<close>: the loop rejects
  the nonces 0 and 1 and signs with the nonce 2, whose point has an \<open>x\<close> coordinate above
  the order, and the recovery returns the encoding of the point 5.
\<close>

theorem recovery_of_sign_witness:
  "sign sample_signing_curve [160] [5] = Some \<lparr>sig_r = 2, sig_s = 4, recoveryParam = 2\<rparr> \<and>
   recovery sample_signing_curve \<lparr>sig_r = 2, sig_s = 4, recoveryParam = 2\<rparr> [160]
     = Inr (private2public sample_signing_curve [5]) \<and>
   private2public sample_signing_curve [5] = [4, 9, 1]"
proof -
  have add: "\<forall>j k. curve_add sample_signing_curve
         (mul sample_signing_curve j (curve_g sample_signing_curve))
         (mul sample_signing_curve k (curve_g sample_signing_curve))
       = mul sample_signing_curve (j + k) (curve_g sample_signing_curve)"
    by (simp add: toy_fields toy_mul mod_add_eq)
  have order: "mul sample_signing_curve (curve_n sample_signing_curve) (curve_g sample_signing_curve)
       = curve_inf sample_signing_curve"
    by (simp add: toy_fields toy_mul)
  have prime: "\<forall>x. 0 < x \<and> x < curve_n sample_signing_curve \<longrightarrow>
       coprime x (curve_n sample_signing_curve)"
    using toy_coprime by (simp add: toy_fields)
  have field: "curve_n sample_signing_curve \<le> curve_p sample_signing_curve \<and>
       curve_p sample_signing_curve < 2 * curve_n sample_signing_curve"
    by (simp add: toy_fields)
  have points: "\<forall>k. 1 < k \<and> k < curve_n sample_signing_curve - 1 \<and>
         mul sample_signing_curve k (curve_g sample_signing_curve) \<noteq> curve_inf sample_signing_curve \<longrightarrow>
       curve_getX sample_signing_curve (mul sample_signing_curve k (curve_g sample_signing_curve))
         < curve_p sample_signing_curve \<and>
       curve_pointFromX sample_signing_curve
         (curve_getX sample_signing_curve (mul sample_signing_curve k (curve_g sample_signing_curve)))
         (odd (curve_getY sample_signing_curve
                (mul sample_signing_curve k (curve_g sample_signing_curve))))
         = Some (mul sample_signing_curve k (curve_g sample_signing_curve))"
    using toy_points by (simp add: toy_fields toy_mul)
  have nonce: "nonce_accepted sample_signing_curve (keyFromPrivate sample_signing_curve [5])
       (truncateToN sample_signing_curve (be_nat [160]) False)
       (candidate sample_signing_curve [160] [5] 2)"
    by (simp add: toy_private toy_digest toy_candidate toy_nonce)
  from recovery_of_sign [OF add order prime field points nonce]
  obtain sg where "sign sample_signing_curve [160] [5] = Some sg"
    and "recovery sample_signing_curve sg [160] = Inr (private2public sample_signing_curve [5])"
    by blast
  moreover have "private2public sample_signing_curve [5] = [4, 9, 1]"
    by (simp add: private2public_def getPublic_def toy_private toy_fields toy_mul)
       (simp add: sample_signing_curve_def toy_x_def toy_y_def)
  ultimately show ?thesis
    using toy_sign by simp
qed

section \<open>Properties of the harvester\<close>

lemma harvest_thrown: "thrown st \<noteq> None \<Longrightarrow> harvest opts st inps = st"
  by (cases inps) simp_all

text \<open>
  An error of \<open>redundant.pull\<close> is printed, and then thrown when fail-fast is set, which
  ends the loop; without fail-fast the loop goes on. An event delivered with an error is
  skipped.
\<close>

lemma harvester_errors:
  assumes "err_truthy err" and "thrown st = None" and "k < length (requested st)"
  shows "harvest opts st (Delivery err ev # rest) = harvest opts st rest \<and>
         harvest opts st (PullDone k err res # rest) =
           (let st' = st\<lparr>console := console st @
                        [\<lparr>line_hash = fst (requested st ! k), line_block = snd (requested st ! k),
                          line_outcome = err\<rparr>]\<rparr>
            in if fail_fast opts then st'\<lparr>thrown := err\<rparr> else harvest opts st' rest)"
  using assms
  by (auto simp add: on_event_def pull_callback_def Let_def harvest_thrown err_truthy_def
      split: option.splits)

text \<open>
  On the sample harvester with fail-fast: the error of the second pull is printed and
  thrown, and the event of block 9 is not handled any more.
\<close>

lemma harvester_errors_sample:
  "harvest (sample_harvester_options True) sample_harvester
     (PullDone 1 (Some ''unavailable'') None # [Delivery None (sample_event 9)]) =
   \<lparr>requested = [(''Q'', 8), (''QQ'', 8)],
    console = [\<lparr>line_hash = ''QQ'', line_block = 8, line_outcome = Some ''unavailable''\<rparr>],
    thrown = Some ''unavailable''\<rparr>"
  using harvester_errors [of "Some ''unavailable''" sample_harvester 1
      "sample_harvester_options True" "sample_event 9" "[Delivery None (sample_event 9)]" None]
  by (simp add: err_truthy_def sample_harvester_def sample_harvester_options_def Let_def)

text \<open>
  C7. The claim says that with fail-fast the first per-event error, a delivery error or a
  pull error, ends the loop. The code does so for a pull error only. Here fail-fast is set
  and the ledger delivers an error and then the event of block 8: nothing is thrown,
  nothing is printed, and the loop goes on to pull the identifiers of the event.
\<close>

theorem fail_fast_delivery_error_skipped:
  "fail_fast (sample_harvester_options True) \<and>
   harvest (sample_harvester_options True) startHarvesting
     [Delivery (Some ''ledger error'') (sample_event 7), Delivery None (sample_event 8)] =
   \<lparr>requested = [(''Q'', 8), (''QQ'', 8)], console = [], thrown = None\<rparr>"
  by code_simp

lemma step_requested: "\<exists>more. requested (step opts st i) = requested st @ more"
proof (cases i)
  case (Delivery err ev)
  then show ?thesis
    by (cases "mode_opt opts") (simp_all add: on_event_def pull_def)
next
  case (PullDone k err res)
  then show ?thesis
    by (simp add: pull_callback_def Let_def)
qed

lemma harvest_requested: "\<exists>more. requested (harvest opts st inps) = requested st @ more"
proof (induction inps arbitrary: st)
  case Nil
  show ?case by simp
next
  case (Cons i inps)
  show ?case
  proof (cases "thrown st = None")
    case True
    from step_requested [of opts st i] obtain m1
      where m1: "requested (step opts st i) = requested st @ m1" by blast
    from Cons [of "step opts st i"] obtain m2
      where "requested (harvest opts (step opts st i) inps) = requested (step opts st i) @ m2"
      by blast
    with m1 True show ?thesis by simp
  next
    case False
    then show ?thesis by simp
  qed
qed

text \<open>
  C8. In the mode \<open>ecdtag\<close>, for every delegation event delivered without error while the
  process runs, the harvester calls \<open>redundant.pull\<close> on the origin identifier and on the
  new identifier of the event: whatever the loop handles afterwards, the two calls are
  among the calls made, and they are the next two after those made before the event.
\<close>

theorem delegated_event_pulls_both:
  assumes "mode_opt opts = Ecdtag_mode" and "\<not> err_truthy err" and "thrown st = None"
  shows "(bnToMultihash58 opts (ipfsOrigin (args ev)), blockNumber ev)
           \<in> set (requested (harvest opts st (Delivery err ev # rest))) \<and>
         (bnToMultihash58 opts (ipfsNew (args ev)), blockNumber ev)
           \<in> set (requested (harvest opts st (Delivery err ev # rest))) \<and>
         take (length (requested st) + 2) (requested (harvest opts st (Delivery err ev # rest))) =
           requested st @
             [(bnToMultihash58 opts (ipfsOrigin (args ev)), blockNumber ev),
              (bnToMultihash58 opts (ipfsNew (args ev)), blockNumber ev)]"
proof -
  let ?st = "st\<lparr>requested := requested st @
              [(bnToMultihash58 opts (ipfsOrigin (args ev)), blockNumber ev),
               (bnToMultihash58 opts (ipfsNew (args ev)), blockNumber ev)]\<rparr>"
  have "harvest opts st (Delivery err ev # rest) = harvest opts ?st rest"
    using assms by (simp add: on_event_def pull_def)
  moreover from harvest_requested [of opts ?st rest] obtain more
    where "requested (harvest opts ?st rest) = requested ?st @ more" by blast
  ultimately show ?thesis by simp
qed

text \<open>
  C8 on the sample event of block 8, from the start, followed by the answer to the
  first call and by the event of block 9.
\<close>

theorem delegated_event_pulls_both_witness:
  "mode_opt (sample_harvester_options False) = Ecdtag_mode \<and> \<not> err_truthy None \<and>
   thrown startHarvesting = None \<and>
   (''Q'', 8) \<in> set (requested (harvest (sample_harvester_options False) startHarvesting
      [Delivery None (sample_event 8), PullDone 0 None (Some ''stored''),
       Delivery None (sample_event 9)])) \<and>
   (''QQ'', 8) \<in> set (requested (harvest (sample_harvester_options False) startHarvesting
      [Delivery None (sample_event 8), PullDone 0 None (Some ''stored''),
       Delivery None (sample_event 9)])) \<and>
   requested (harvest (sample_harvester_options False) startHarvesting
      [Delivery None (sample_event 8), PullDone 0 None (Some ''stored''),
       Delivery None (sample_event 9)]) = [(''Q'', 8), (''QQ'', 8), (''Q'', 9), (''QQ'', 9)]"
proof -
  have m: "mode_opt (sample_harvester_options False) = Ecdtag_mode"
    by (simp add: sample_harvester_options_def)
  have e: "\<not> err_truthy None"
    by (simp add: err_truthy_def)
  have t: "thrown startHarvesting = None"
    by (simp add: startHarvesting_def)
  have r: "requested (harvest (sample_harvester_options False) startHarvesting
      [Delivery None (sample_event 8), PullDone 0 None (Some ''stored''),
       Delivery None (sample_event 9)]) = [(''Q'', 8), (''QQ'', 8), (''Q'', 9), (''QQ'', 9)]"
    by code_simp
  from delegated_event_pulls_both [OF m e t, of "sample_event 8"
      "[PullDone 0 None (Some ''stored''), Delivery None (sample_event 9)]"] m e t r
  show ?thesis by simp
qed

section \<open>Properties of the retrieval\<close>

lemma try_peers_present:
  "try_peers net c ps st = (st', True) \<Longrightarrow> c \<in> set (present st')"
  by (induction ps arbitrary: st) (auto simp: Let_def split: if_splits)

lemma redundant_pull_present:
  assumes "redundant_pull net c st = (st', Pulled)"
  shows "c \<in> set (present st')"
proof (cases "c \<in> set (present st)")
  case True
  with assms show ?thesis by (simp add: redundant_pull_def)
next
  case False
  with assms show ?thesis
    by (auto simp: redundant_pull_def Let_def split: prod.splits if_splits
        dest: try_peers_present)
qed

text \<open>
  C9. After a successful \<open>pull\<close> of an identifier, a second \<open>pull\<close> of the same identifier
  leaves the state as it is: no provider query and no fetch attempt is made.
\<close>

theorem second_pull_is_local:
  assumes "redundant_pull net c st = (st', Pulled)"
  shows "redundant_pull net c st' = (st', Pulled) \<and>
         provider_queries (fst (redundant_pull net c st')) = provider_queries st' \<and>
         fetch_attempts (fst (redundant_pull net c st')) = fetch_attempts st'"
  using redundant_pull_present [OF assms] by (simp add: redundant_pull_def)

text \<open>
  C9 on the sample network: the first pull asks for providers once and fetches twice,
  the second does neither.
\<close>

theorem second_pull_is_local_witness:
  "redundant_pull sample_network ''Qm1'' empty_replica = (sample_replica, Pulled) \<and>
   redundant_pull sample_network ''Qm1'' sample_replica = (sample_replica, Pulled) \<and>
   provider_queries (fst (redundant_pull sample_network ''Qm1'' sample_replica)) = 1 \<and>
   fetch_attempts (fst (redundant_pull sample_network ''Qm1'' sample_replica)) = 2"
proof -
  have first: "redundant_pull sample_network ''Qm1'' empty_replica = (sample_replica, Pulled)"
    by code_simp
  from second_pull_is_local [OF first] first show ?thesis
    by (simp add: sample_replica_def)
qed

end
